theory Spec2Isabelle
  imports Main "HOL-Library.Word"
begin

unbundle bit_operations_syntax

section \<open>The stepper clock driver of clock.c\<close>

text \<open>
  The program has two threads of control: the Timer-1 compare interrupt handler
  \<^verbatim>\<open>ISR(TIMER1_COMPA_vect)\<close> and the endless loop of \<^verbatim>\<open>main\<close>. They share three
  globals; the handler also owns a function-static counter and writes the PORTB register.
  The target is an ATtiny85 compiled with avr-gcc, where \<^verbatim>\<open>int\<close> has 16 bits.
\<close>

subsection \<open>Constants\<close>

type_synonym u8 = "8 word"
type_synonym u16 = "16 word"

definition PB_PUP_INIT :: u8 where "PB_PUP_INIT = 0x14"
definition PB_INIT :: u8 where "PB_INIT = 0x00"

definition BUTTON_FAST_FWD :: u8 where "BUTTON_FAST_FWD = 0x04"
definition BUTTON_FAST_REV :: u8 where "BUTTON_FAST_REV = 0x10"

definition RATE_FAST :: u16 where "RATE_FAST = 0"
definition RATE_NORMAL :: u16 where "RATE_NORMAL = 2"

definition DIR_FWD :: u16 where "DIR_FWD = 1"
definition DIR_REV :: u16 where "DIR_REV = 2"

subsection \<open>State\<close>

text \<open>
  The globals \<^verbatim>\<open>timerTicks\<close>, \<^verbatim>\<open>clock_direction\<close> and \<^verbatim>\<open>clock_rate\<close>, the handler's
  static \<^verbatim>\<open>two_bit_counter\<close> (a \<^verbatim>\<open>uint8_t\<close>), and the output register PORTB.
\<close>

record state =
  timerTicks :: u16
  clock_direction :: u16
  clock_rate :: u16
  two_bit_counter :: u8
  PORTB :: u8

text \<open>
  The initializers of the globals and of the static, and the value \<^verbatim>\<open>ioinit\<close> stores
  in PORTB before interrupts are enabled.
\<close>

definition init_state :: state where
  "init_state = \<lparr> timerTicks = 0, clock_direction = DIR_FWD, clock_rate = RATE_NORMAL,
                  two_bit_counter = 0, PORTB = PB_INIT OR PB_PUP_INIT \<rparr>"

subsection \<open>The interrupt handler\<close>

text \<open>
  \<^verbatim>\<open>timerTicks++\<close> wraps at 16 bits and the comparison is unsigned. Inside the branch
  the handler clears the tick counter, writes the port from the current counter, and
  only then steps the counter (both steps wrap at 8 bits).
\<close>

definition ISR :: "state \<Rightarrow> state" where
  "ISR s =
    (let s1 = s\<lparr>timerTicks := timerTicks s + 1\<rparr> in
     if timerTicks s1 > clock_rate s1 then
       let s2 = s1\<lparr>timerTicks := 0\<rparr>;
           temp_port = PORTB s2 AND 0xFC;
           temp_port = temp_port OR (two_bit_counter s2 AND 0x03);
           s3 = s2\<lparr>PORTB := temp_port\<rparr>
       in if clock_direction s3 = DIR_FWD
          then s3\<lparr>two_bit_counter := two_bit_counter s3 - 1\<rparr>
          else s3\<lparr>two_bit_counter := two_bit_counter s3 + 1\<rparr>
     else s1)"

text \<open>Whether an invocation from \<open>s\<close> takes the compare branch.\<close>

definition fires :: "state \<Rightarrow> bool" where
  "fires s = (timerTicks s + 1 > clock_rate s)"

text \<open>\<open>n\<close> consecutive invocations, with nothing in between.\<close>

fun run_isr :: "nat \<Rightarrow> state \<Rightarrow> state" where
  "run_isr 0 s = s"
| "run_isr (Suc n) s = run_isr n (ISR s)"

text \<open>
  The number of phase transitions seen during \<open>n\<close> consecutive invocations: the
  invocations across which the phase counter changed.
\<close>

fun transitions :: "nat \<Rightarrow> state \<Rightarrow> nat" where
  "transitions 0 s = 0"
| "transitions (Suc n) s =
     (if two_bit_counter (ISR s) \<noteq> two_bit_counter s then 1 else 0) + transitions n (ISR s)"

text \<open>The two output lines and the observable part of the counter.\<close>

definition out_bits :: "state \<Rightarrow> u8" where
  "out_bits s = PORTB s AND 0x03"

definition phase :: "state \<Rightarrow> u8" where
  "phase s = two_bit_counter s AND 0x03"

subsection \<open>The main loop\<close>

text \<open>
  One iteration of the loop body. PINB is volatile and is read once per test, so the
  iteration takes the value of each read: \<open>pin1\<close> for the fast-forward test and \<open>pin2\<close>
  for the fast-reverse test, which is only evaluated when the first test fails.
\<close>

definition arbiter :: "u8 \<Rightarrow> u8 \<Rightarrow> state \<Rightarrow> state" where
  "arbiter pin1 pin2 s =
    (if pin1 AND BUTTON_FAST_FWD = 0 then
       (s\<lparr>clock_rate := RATE_FAST\<rparr>)\<lparr>clock_direction := DIR_FWD\<rparr>
     else if pin2 AND BUTTON_FAST_REV = 0 then
       (s\<lparr>clock_rate := RATE_FAST\<rparr>)\<lparr>clock_direction := DIR_REV\<rparr>
     else
       (s\<lparr>clock_rate := RATE_NORMAL\<rparr>)\<lparr>clock_direction := DIR_FWD\<rparr>)"

text \<open>
  The loop interleaved with the interrupt. Each branch of the loop body is two stores,
  and the handler can run between them, so the foreground has a position: at the top
  of the loop, or inside one of the three branches after its first store.
\<close>

datatype main_pc = LoopTop | InFwd | InRev | InNormal

inductive sys_step :: "main_pc \<times> state \<Rightarrow> main_pc \<times> state \<Rightarrow> bool" where
  irq: "sys_step (pc, s) (pc, ISR s)"
| fwd_rate: "pin1 AND BUTTON_FAST_FWD = 0 \<Longrightarrow>
     sys_step (LoopTop, s) (InFwd, s\<lparr>clock_rate := RATE_FAST\<rparr>)"
| fwd_dir: "sys_step (InFwd, s) (LoopTop, s\<lparr>clock_direction := DIR_FWD\<rparr>)"
| rev_rate: "pin1 AND BUTTON_FAST_FWD \<noteq> 0 \<Longrightarrow> pin2 AND BUTTON_FAST_REV = 0 \<Longrightarrow>
     sys_step (LoopTop, s) (InRev, s\<lparr>clock_rate := RATE_FAST\<rparr>)"
| rev_dir: "sys_step (InRev, s) (LoopTop, s\<lparr>clock_direction := DIR_REV\<rparr>)"
| normal_rate: "pin1 AND BUTTON_FAST_FWD \<noteq> 0 \<Longrightarrow> pin2 AND BUTTON_FAST_REV \<noteq> 0 \<Longrightarrow>
     sys_step (LoopTop, s) (InNormal, s\<lparr>clock_rate := RATE_NORMAL\<rparr>)"
| normal_dir: "sys_step (InNormal, s) (LoopTop, s\<lparr>clock_direction := DIR_FWD\<rparr>)"

inductive reachable :: "main_pc \<times> state \<Rightarrow> bool" where
  start: "reachable (LoopTop, init_state)"
| step: "reachable c \<Longrightarrow> sys_step c c' \<Longrightarrow> reachable c'"


section \<open>Bit-level facts\<close>

lemma uint_and3: "uint ((c::u8) AND 3) = uint c mod 4"
proof -
  have "c AND 3 = take_bit 2 c"
    by (simp add: take_bit_eq_mask mask_eq_exp_minus_1)
  then show ?thesis
    by (simp add: take_bit_eq_mod uint_mod)
qed

lemma uint_dec: "uint ((c::u8) - 1 AND 3) = (uint (c AND 3) - 1) mod 4"
proof -
  have "uint (c - 1) = (uint c - 1) mod 256"
    by (simp add: uint_word_ariths)
  then have "uint (c - 1) mod 4 = (uint c - 1) mod 4"
    by (simp add: mod_mod_cancel)
  then show ?thesis
    by (simp add: uint_and3 mod_simps)
qed

lemma uint_inc: "uint ((c::u8) + 1 AND 3) = (uint (c AND 3) + 1) mod 4"
proof -
  have "uint (c + 1) = (uint c + 1) mod 256"
    by (simp add: uint_word_ariths)
  then have "uint (c + 1) mod 4 = (uint c + 1) mod 4"
    by (simp add: mod_mod_cancel)
  then show ?thesis
    by (simp add: uint_and3 mod_simps)
qed

lemma and3_cases: "(c::u8) AND 3 \<in> {0, 1, 2, 3}"
proof -
  have "uint (c AND 3) \<in> {0, 1, 2, 3}"
    unfolding uint_and3 by auto
  then show ?thesis
    by (auto simp: word_uint_eq_iff)
qed

lemma port_upper: "(((p::u8) AND 0xFC) OR (c AND 0x03)) AND 0xFC = p AND 0xFC"
  by (simp add: word_ao_dist word_bw_assocs)

lemma port_lower: "(((p::u8) AND 0xFC) OR (c AND 0x03)) AND 0x03 = c AND 0x03"
  by (simp add: word_ao_dist word_bw_assocs)

section \<open>Properties of the interrupt handler\<close>


lemma ISR_fires:
  "fires s \<Longrightarrow> ISR s = s\<lparr>timerTicks := 0,
      PORTB := (PORTB s AND 0xFC) OR (two_bit_counter s AND 0x03),
      two_bit_counter := (if clock_direction s = DIR_FWD then two_bit_counter s - 1
                          else two_bit_counter s + 1)\<rparr>"
  by (simp add: ISR_def fires_def Let_def)

lemma ISR_idle:
  "\<not> fires s \<Longrightarrow> ISR s = s\<lparr>timerTicks := timerTicks s + 1\<rparr>"
  by (simp add: ISR_def fires_def Let_def)

lemma ISR_counter_changes: "fires s \<Longrightarrow> two_bit_counter (ISR s) \<noteq> two_bit_counter s"
  by (simp add: ISR_fires)

lemma ISR_counter_same: "\<not> fires s \<Longrightarrow> two_bit_counter (ISR s) = two_bit_counter s"
  by (simp add: ISR_idle)

lemma ISR_rate: "clock_rate (ISR s) = clock_rate s"
  by (cases "fires s") (simp_all add: ISR_fires ISR_idle)


lemma phase_after_fire:
  "fires s \<Longrightarrow> uint (phase (ISR s)) =
     (if clock_direction s = DIR_FWD then (uint (phase s) - 1) mod 4
      else (uint (phase s) + 1) mod 4)"
  by (simp add: ISR_fires phase_def uint_dec uint_inc)

lemma phase_range: "0 \<le> uint (phase s) \<and> uint (phase s) < 4"
  by (simp add: phase_def uint_and3)

lemma phase_moves: "fires s \<Longrightarrow> phase (ISR s) \<noteq> phase s"
proof
  assume f: "fires s" and e: "phase (ISR s) = phase s"
  let ?v = "uint (phase s)"
  have "(?v - 1) mod 4 \<noteq> ?v" "(?v + 1) mod 4 \<noteq> ?v"
    using phase_range [of s] by presburger+
  with phase_after_fire [OF f] e show False
    by (simp split: if_splits)
qed

text \<open>The three variables the handler writes, after one invocation from any state.\<close>

lemma ticks_after_ISR:
  "timerTicks (ISR s) = (if clock_rate s < timerTicks s + 1 then 0 else timerTicks s + 1)"
  by (simp add: ISR_def Let_def)

lemma counter_after_ISR:
  "uint (two_bit_counter (ISR s)) =
     (if fires s then
        (if clock_direction s = DIR_FWD then (uint (two_bit_counter s) - 1) mod 256
         else (uint (two_bit_counter s) + 1) mod 256)
      else uint (two_bit_counter s))"
  by (cases "fires s") (simp_all add: ISR_fires ISR_idle uint_word_ariths)

lemma port_after_ISR:
  "PORTB (ISR s) = (if fires s then (PORTB s AND 0xFC) OR phase s else PORTB s)"
  by (cases "fires s") (simp_all add: ISR_fires ISR_idle phase_def)

text \<open>Unfolding a run on a numeral, one invocation at a time.\<close>

lemma run_isr_numeral: "run_isr (numeral k) s = run_isr (pred_numeral k) (ISR s)"
  by (simp add: numeral_eq_Suc)

lemma transitions_numeral:
  "transitions (numeral k) s =
     (if two_bit_counter (ISR s) \<noteq> two_bit_counter s then 1 else 0)
     + transitions (pred_numeral k) (ISR s)"
  by (simp add: numeral_eq_Suc)

lemmas concrete_defs = run_isr_numeral transitions_numeral ISR_def init_state_def
  RATE_NORMAL_def RATE_FAST_def DIR_FWD_def DIR_REV_def Let_def PB_INIT_def PB_PUP_INIT_def
  phase_def out_bits_def fires_def arbiter_def BUTTON_FAST_FWD_def BUTTON_FAST_REV_def

section \<open>One invocation of the handler\<close>

text \<open>
  Claim C1, as the spec states it, has the handler step the phase counter first and
  write the stepped value, so that on return the two output bits equal the new phase.
  The handler writes first and steps afterwards. Three invocations after reset, at the
  first transition under the normal rate, the output bits are 0 and the new phase is 3.
\<close>

theorem isr_output_differs_from_new_phase:
  "fires (run_isr 2 init_state) \<and>
   out_bits (ISR (run_isr 2 init_state)) \<noteq> phase (ISR (run_isr 2 init_state))"
  by (simp add: concrete_defs)

text \<open>
  Claim C1, amended: whenever the incremented tick counter exceeds the rate threshold,
  the handler resets the tick counter to 0, writes the low 2 bits of the phase counter
  as it stands before the step to the two output lines (the other port bits keep their
  values), and then steps the counter by \<open>-1\<close> when the direction is forward and by
  \<open>+1\<close> otherwise, which moves its low 2 bits by one modulo 4. On return the output
  bits equal the phase before the step, and so differ from the new phase.
\<close>

theorem isr_fire_writes_then_steps:
  "fires s \<Longrightarrow>
     timerTicks (ISR s) = 0
   \<and> out_bits (ISR s) = phase s
   \<and> PORTB (ISR s) AND 0xFC = PORTB s AND 0xFC
   \<and> two_bit_counter (ISR s) =
         (if clock_direction s = DIR_FWD then two_bit_counter s - 1
          else two_bit_counter s + 1)
   \<and> uint (phase (ISR s)) =
         (if clock_direction s = DIR_FWD then (uint (phase s) - 1) mod 4
          else (uint (phase s) + 1) mod 4)
   \<and> out_bits (ISR s) \<noteq> phase (ISR s)"
proof -
  assume f: "fires s"
  have ticks: "timerTicks (ISR s) = 0"
    using f by (simp add: ISR_fires)
  have out: "out_bits (ISR s) = phase s"
    using f by (simp add: ISR_fires out_bits_def phase_def port_lower)
  have upper: "PORTB (ISR s) AND 0xFC = PORTB s AND 0xFC"
    using f by (simp add: ISR_fires port_upper)
  have counter: "two_bit_counter (ISR s) =
           (if clock_direction s = DIR_FWD then two_bit_counter s - 1
            else two_bit_counter s + 1)"
    using f by (simp add: ISR_fires)
  have lag: "out_bits (ISR s) \<noteq> phase (ISR s)"
    using phase_moves [OF f] out by simp
  from ticks out upper counter phase_after_fire [OF f] lag show ?thesis
    by blast
qed

theorem isr_fire_writes_then_steps_witness:
  "fires (run_isr 2 init_state)
   \<and> timerTicks (run_isr 3 init_state) = 0
   \<and> out_bits (run_isr 3 init_state) = 0
   \<and> two_bit_counter (run_isr 3 init_state) = 255
   \<and> uint (phase (run_isr 3 init_state)) = 3"
proof -
  have f: "fires (run_isr 2 init_state)"
    by (simp add: concrete_defs)
  have e: "run_isr 3 init_state = ISR (run_isr 2 init_state)"
    by (simp add: run_isr_numeral)
  have s: "phase (run_isr 2 init_state) = 0" "two_bit_counter (run_isr 2 init_state) = 0"
    "clock_direction (run_isr 2 init_state) = DIR_FWD"
    by (simp_all add: concrete_defs)
  show ?thesis
    using f isr_fire_writes_then_steps [OF f] by (simp add: e s)
qed

text \<open>
  Claim C2: from every phase value \<open>v\<close> in 0..3, a transition step takes the low 2 bits
  of the phase counter from \<open>v\<close> to \<open>(v - 1) mod 4\<close> when the direction is forward and to
  \<open>(v + 1) mod 4\<close> when it is reverse.
\<close>

theorem phase_step_mod4:
  "fires s \<Longrightarrow>
     (clock_direction s = DIR_FWD \<longrightarrow> uint (phase (ISR s)) = (uint (phase s) - 1) mod 4)
   \<and> (clock_direction s = DIR_REV \<longrightarrow> uint (phase (ISR s)) = (uint (phase s) + 1) mod 4)"
  using phase_after_fire [of s] by (simp add: DIR_FWD_def DIR_REV_def)

theorem phase_step_mod4_witness:
  "fires (arbiter 0x10 0x10 init_state)
   \<and> clock_direction (arbiter 0x10 0x10 init_state) = DIR_FWD
   \<and> uint (phase (ISR (arbiter 0x10 0x10 init_state))) = 3
   \<and> fires (arbiter 0x04 0x04 init_state)
   \<and> clock_direction (arbiter 0x04 0x04 init_state) = DIR_REV
   \<and> uint (phase (ISR (arbiter 0x04 0x04 init_state))) = 1"
proof -
  have f: "fires (arbiter 0x10 0x10 init_state)" "fires (arbiter 0x04 0x04 init_state)"
    by (simp_all add: concrete_defs)
  have d: "clock_direction (arbiter 0x10 0x10 init_state) = DIR_FWD"
    "clock_direction (arbiter 0x04 0x04 init_state) = DIR_REV"
    by (simp_all add: concrete_defs)
  have p: "phase (arbiter 0x10 0x10 init_state) = 0" "phase (arbiter 0x04 0x04 init_state) = 0"
    by (simp_all add: concrete_defs)
  show ?thesis
    using f d phase_step_mod4 [OF f(1)] phase_step_mod4 [OF f(2)]
    by (simp add: p)
qed

text \<open>
  Claim C5, as the spec states it, keeps the phase-counter variable itself within 0..3.
  The variable is a \<^verbatim>\<open>uint8_t\<close> that is stepped without a mask: the first forward
  transition after reset takes it from 0 to 255.
\<close>

theorem two_bit_counter_leaves_range:
  "two_bit_counter (run_isr 3 init_state) \<notin> {0, 1, 2, 3}"
  by (simp add: concrete_defs)

text \<open>
  Claim C5, amended: the phase counter is an 8-bit variable that is 0 at initialization
  and is stepped by one modulo 256 at each transition (down when the direction is
  forward, up otherwise, unchanged when no transition occurs), so it is not confined to
  0..3: it is 255 three invocations after reset. Its low 2 bits are the only part the
  handler writes to the output (the port becomes its old bits 2 to 7 joined with the low
  2 bits of the counter), and they are always in 0..3: at initialization, after every
  invocation of the handler under either direction, and all along a run from reset.
\<close>

theorem phase_counter_wraps_low_bits_in_range:
  "two_bit_counter init_state = 0
   \<and> two_bit_counter (run_isr 3 init_state) = 255
   \<and> uint (two_bit_counter (ISR s)) =
       (if fires s then
          (if clock_direction s = DIR_FWD then (uint (two_bit_counter s) - 1) mod 256
           else (uint (two_bit_counter s) + 1) mod 256)
        else uint (two_bit_counter s))
   \<and> PORTB (ISR s) = (if fires s then (PORTB s AND 0xFC) OR phase s else PORTB s)
   \<and> phase init_state \<in> {0, 1, 2, 3}
   \<and> phase (ISR s) \<in> {0, 1, 2, 3}
   \<and> phase (run_isr n init_state) \<in> {0, 1, 2, 3}"
proof -
  have a: "two_bit_counter init_state = 0"
    by (simp add: init_state_def)
  have b: "two_bit_counter (run_isr 3 init_state) = 255"
    by (simp add: concrete_defs)
  have c: "phase x \<in> {0, 1, 2, 3}" for x
    unfolding phase_def by (rule and3_cases)
  from a b counter_after_ISR [of s] port_after_ISR [of s] c show ?thesis
    by blast
qed

text \<open>
  Claim C6: every invocation increments the tick counter once and resets it to 0 when
  the incremented value exceeds the threshold (the increment wraps at 16 bits and the
  comparison is unsigned), so after the compare branch the tick counter is strictly
  below the threshold plus one. This holds from every state and for every threshold,
  the two the program uses (0 and 2) among them.
\<close>

theorem tick_counter_counts_and_stays_below:
  "timerTicks (ISR s) = (if clock_rate s < timerTicks s + 1 then 0 else timerTicks s + 1)
   \<and> unat (timerTicks (ISR s)) < unat (clock_rate s) + 1"
proof -
  have bound: "unat (timerTicks (ISR s)) < unat (clock_rate s) + 1"
  proof (cases "fires s")
    case True
    then show ?thesis
      by (simp add: ISR_fires)
  next
    case False
    then have "timerTicks s + 1 \<le> clock_rate s"
      by (simp add: fires_def)
    then have "unat (timerTicks s + 1) \<le> unat (clock_rate s)"
      by (simp add: word_le_nat_alt)
    with False show ?thesis
      by (simp add: ISR_idle)
  qed
  with ticks_after_ISR [of s] show ?thesis
    by blast
qed

text \<open>
  Claim C7: bits 2 to 7 of the output port are the same before and after every
  invocation. When a transition occurs the new port value is the old one with bits 0
  and 1 replaced by the low 2 bits of the counter; when none occurs the port is not
  written.
\<close>

theorem isr_port_upper_bits_kept:
  "PORTB (ISR s) AND 0xFC = PORTB s AND 0xFC
   \<and> (fires s \<longrightarrow> PORTB (ISR s) = (PORTB s AND 0xFC) OR (two_bit_counter s AND 0x03))
   \<and> (\<not> fires s \<longrightarrow> PORTB (ISR s) = PORTB s)"
  by (cases "fires s") (simp_all add: ISR_fires ISR_idle port_upper)

theorem isr_port_upper_bits_kept_witness:
  "\<not> fires init_state \<and> PORTB (ISR init_state) = 0x14
   \<and> fires (run_isr 5 init_state)
   \<and> PORTB (ISR (run_isr 5 init_state)) = 0x17
   \<and> PORTB (ISR (run_isr 5 init_state)) AND 0xFC = 0x14"
proof -
  have a: "\<not> fires init_state" "PORTB init_state = 0x14"
    by (simp_all add: concrete_defs)
  have b: "fires (run_isr 5 init_state)"
    "PORTB (run_isr 5 init_state) = 0x14"
    "two_bit_counter (run_isr 5 init_state) = 0xFF"
    by (simp_all add: concrete_defs)
  show ?thesis
    using isr_port_upper_bits_kept [of init_state]
      isr_port_upper_bits_kept [of "run_isr 5 init_state"]
    by (simp add: a b)
qed

section \<open>Runs of the handler\<close>

lemma unat_tick_succ:
  assumes "unat (t::u16) \<le> unat T" and "unat (T::u16) < 65535"
  shows "unat (t + 1) = unat t + 1"
proof -
  have "unat t + 1 < 65536"
    using assms by simp
  then show ?thesis
    by (simp add: unat_word_ariths)
qed

lemma fires_iff:
  assumes "unat (timerTicks s) \<le> unat (clock_rate s)" and "unat (clock_rate s) < 65535"
  shows "fires s \<longleftrightarrow> unat (timerTicks s) = unat (clock_rate s)"
proof -
  have "fires s \<longleftrightarrow> unat (clock_rate s) < unat (timerTicks s + 1)"
    by (simp add: fires_def word_less_nat_alt)
  also have "\<dots> \<longleftrightarrow> unat (clock_rate s) < unat (timerTicks s) + 1"
    by (simp add: unat_tick_succ [OF assms])
  finally show ?thesis
    using assms(1) by auto
qed

text \<open>
  With the tick counter anywhere at or below the threshold, the count of transitions in
  a run is a division: the ticks already counted are part of the first period.
\<close>

lemma transitions_count:
  "unat (timerTicks s) \<le> unat (clock_rate s) \<Longrightarrow> unat (clock_rate s) < 65535 \<Longrightarrow>
   transitions n s = (n + unat (timerTicks s)) div (unat (clock_rate s) + 1)"
proof (induction n arbitrary: s)
  case 0
  then show ?case by simp
next
  case (Suc n)
  let ?T = "unat (clock_rate s)"
  show ?case
  proof (cases "fires s")
    case True
    then have full: "unat (timerTicks s) = ?T"
      using Suc.prems by (simp add: fires_iff)
    have t0: "timerTicks (ISR s) = 0"
      using True by (simp add: ISR_fires)
    have "transitions n (ISR s) = n div (?T + 1)"
      using Suc.IH [of "ISR s"] Suc.prems t0 by (simp add: ISR_rate)
    moreover have "(Suc n + ?T) div (?T + 1) = n div (?T + 1) + 1"
    proof -
      have "Suc n + ?T = n + (?T + 1)" by simp
      then show ?thesis by (simp only: div_add_self2)
    qed
    ultimately show ?thesis
      using True full by (simp add: ISR_counter_changes)
  next
    case False
    then have less: "unat (timerTicks s) < ?T"
      using Suc.prems by (simp add: fires_iff)
    have t1: "unat (timerTicks (ISR s)) = unat (timerTicks s) + 1"
      using False Suc.prems by (simp add: ISR_idle unat_tick_succ)
    have "transitions n (ISR s) = (n + (unat (timerTicks s) + 1)) div (?T + 1)"
      using Suc.IH [of "ISR s"] Suc.prems t1 less by (simp add: ISR_rate)
    then show ?thesis
      using False by (simp add: ISR_counter_same)
  qed
qed

text \<open>
  The bound on the threshold in \<open>transitions_count\<close> is needed: at the largest 16-bit
  value the comparison never succeeds. The main loop never stores that value.
\<close>

lemma never_fires_at_max: "clock_rate s = - 1 \<Longrightarrow> \<not> fires s"
  by (simp add: fires_def word_not_simps)

lemma no_transition_at_max_threshold: "clock_rate s = - 1 \<Longrightarrow> transitions n s = 0"
proof (induction n arbitrary: s)
  case 0
  show ?case by simp
next
  case (Suc n)
  from Suc.prems have "\<not> fires s"
    by (rule never_fires_at_max)
  then have "two_bit_counter (ISR s) = two_bit_counter s"
    by (rule ISR_counter_same)
  moreover have "transitions n (ISR s) = 0"
    using Suc.prems by (intro Suc.IH) (simp add: ISR_rate)
  ultimately show ?case
    by simp
qed

text \<open>
  Claim C3: starting with the tick counter at 0 and the rate threshold at \<open>T\<close>, \<open>N\<close>
  consecutive invocations make exactly \<open>N div (T + 1)\<close> phase transitions. \<open>T\<close> is any
  threshold whose successor fits in the 16-bit counter, which covers the two values the
  main loop ever stores, 0 and 2.
\<close>

theorem transitions_per_threshold:
  "timerTicks s = 0 \<Longrightarrow> clock_rate s = T \<Longrightarrow> unat T < 65535 \<Longrightarrow>
   transitions N s = N div (unat T + 1)"
  using transitions_count [of s N] by simp

theorem transitions_per_threshold_witness:
  "timerTicks init_state = 0 \<and> clock_rate init_state = RATE_NORMAL
   \<and> unat RATE_NORMAL < 65535 \<and> transitions 7 init_state = 2
   \<and> timerTicks (arbiter 0 0 init_state) = 0 \<and> clock_rate (arbiter 0 0 init_state) = RATE_FAST
   \<and> unat RATE_FAST < 65535 \<and> transitions 7 (arbiter 0 0 init_state) = 7"
proof -
  have a: "timerTicks init_state = 0" "clock_rate init_state = RATE_NORMAL"
    "unat RATE_NORMAL < 65535"
    by (simp_all add: init_state_def RATE_NORMAL_def)
  have b: "timerTicks (arbiter 0 0 init_state) = 0"
    "clock_rate (arbiter 0 0 init_state) = RATE_FAST" "unat RATE_FAST < 65535"
    by (simp_all add: init_state_def arbiter_def RATE_FAST_def)
  show ?thesis
    using a b transitions_per_threshold [OF a, of 7] transitions_per_threshold [OF b, of 7]
    by (simp add: RATE_NORMAL_def RATE_FAST_def)
qed

text \<open>
  Claim C4: from tick counter 0, phase counter 0, the normal threshold 2 and direction
  forward, nine invocations make exactly three transitions, each a decrement, and the
  low 2 bits of the final phase counter are 1. The port's initial value does not matter.
\<close>

theorem nine_ticks_normal_forward:
  "transitions 9 \<lparr>timerTicks = 0, clock_direction = DIR_FWD, clock_rate = RATE_NORMAL,
                  two_bit_counter = 0, PORTB = p\<rparr> = 3
   \<and> two_bit_counter (run_isr 9 \<lparr>timerTicks = 0, clock_direction = DIR_FWD,
        clock_rate = RATE_NORMAL, two_bit_counter = 0, PORTB = p\<rparr>) = 0 - 3
   \<and> phase (run_isr 9 \<lparr>timerTicks = 0, clock_direction = DIR_FWD,
        clock_rate = RATE_NORMAL, two_bit_counter = 0, PORTB = p\<rparr>) = 1"
  by (simp add: concrete_defs)

text \<open>
  In the same run the output lines show 2 at the end: the port was last written at the
  ninth invocation, from the counter before its third decrement.
\<close>

lemma nine_ticks_output_lags:
  "out_bits (run_isr 9 \<lparr>timerTicks = 0, clock_direction = DIR_FWD,
        clock_rate = RATE_NORMAL, two_bit_counter = 0, PORTB = p\<rparr>) = 2"
  by (simp add: concrete_defs port_lower word_ao_dist word_bw_assocs)

section \<open>The main loop\<close>

text \<open>
  Claim C8: an iteration whose read of the inputs shows both buttons pressed (both bits
  0) stores the fast rate and the forward direction, whatever the state before. The
  fast-reverse test is not reached, so the value of a second read plays no part.
\<close>

theorem arbiter_both_pressed_forward_wins:
  "pin1 AND BUTTON_FAST_FWD = 0 \<Longrightarrow> pin1 AND BUTTON_FAST_REV = 0 \<Longrightarrow>
   clock_rate (arbiter pin1 pin2 s) = RATE_FAST
   \<and> clock_direction (arbiter pin1 pin2 s) = DIR_FWD"
  by (simp add: arbiter_def)

theorem arbiter_both_pressed_forward_wins_witness:
  "(0x00 :: u8) AND BUTTON_FAST_FWD = 0 \<and> (0x00 :: u8) AND BUTTON_FAST_REV = 0
   \<and> clock_rate (arbiter 0x00 0x00 (arbiter 0x04 0x04 init_state)) = RATE_FAST
   \<and> clock_direction (arbiter 0x00 0x00 (arbiter 0x04 0x04 init_state)) = DIR_FWD"
proof -
  have a: "(0x00 :: u8) AND BUTTON_FAST_FWD = 0" "(0x00 :: u8) AND BUTTON_FAST_REV = 0"
    by simp_all
  show ?thesis
    using a arbiter_both_pressed_forward_wins [OF a, of "0x00" "arbiter 0x04 0x04 init_state"]
    by simp
qed

text \<open>
  Claim C9: an iteration in which the fast-forward input and then the fast-reverse input
  both read released (bit 1) stores the normal rate and the forward direction, whatever
  the rate and direction were before.
\<close>

theorem arbiter_both_released_default:
  "pin1 AND BUTTON_FAST_FWD \<noteq> 0 \<Longrightarrow> pin2 AND BUTTON_FAST_REV \<noteq> 0 \<Longrightarrow>
   clock_rate (arbiter pin1 pin2 s) = RATE_NORMAL
   \<and> clock_direction (arbiter pin1 pin2 s) = DIR_FWD"
  by (simp add: arbiter_def)

theorem arbiter_both_released_default_witness:
  "(0x14 :: u8) AND BUTTON_FAST_FWD \<noteq> 0 \<and> (0x14 :: u8) AND BUTTON_FAST_REV \<noteq> 0
   \<and> clock_rate (arbiter 0x04 0x04 init_state) = RATE_FAST
   \<and> clock_direction (arbiter 0x04 0x04 init_state) = DIR_REV
   \<and> clock_rate (arbiter 0x14 0x14 (arbiter 0x04 0x04 init_state)) = RATE_NORMAL
   \<and> clock_direction (arbiter 0x14 0x14 (arbiter 0x04 0x04 init_state)) = DIR_FWD"
proof -
  have a: "(0x14 :: u8) AND BUTTON_FAST_FWD \<noteq> 0" "(0x14 :: u8) AND BUTTON_FAST_REV \<noteq> 0"
    by (simp_all add: BUTTON_FAST_FWD_def BUTTON_FAST_REV_def)
  have b: "clock_rate (arbiter 0x04 0x04 init_state) = RATE_FAST"
    "clock_direction (arbiter 0x04 0x04 init_state) = DIR_REV"
    by (simp_all add: arbiter_def BUTTON_FAST_FWD_def BUTTON_FAST_REV_def)
  show ?thesis
    using a b arbiter_both_released_default [OF a, of "arbiter 0x04 0x04 init_state"]
    by simp
qed

subsection \<open>The loop under interrupts\<close>



text \<open>
  A whole iteration is two steps of the foreground, so the top of the loop is reached
  again in the state that \<open>arbiter\<close> computes.
\<close>

lemma arbiter_reachable:
  assumes "reachable (LoopTop, s)"
  shows "reachable (LoopTop, arbiter pin1 pin2 s)"
proof -
  consider (f) "pin1 AND BUTTON_FAST_FWD = 0"
    | (r) "pin1 AND BUTTON_FAST_FWD \<noteq> 0" "pin2 AND BUTTON_FAST_REV = 0"
    | (n) "pin1 AND BUTTON_FAST_FWD \<noteq> 0" "pin2 AND BUTTON_FAST_REV \<noteq> 0"
    by blast
  then show ?thesis
  proof cases
    case f
    from assms fwd_rate [OF f] have "reachable (InFwd, s\<lparr>clock_rate := RATE_FAST\<rparr>)"
      by (rule reachable.step)
    from this fwd_dir show ?thesis
      unfolding arbiter_def using f by (simp add: reachable.step)
  next
    case r
    from assms rev_rate [OF r] have "reachable (InRev, s\<lparr>clock_rate := RATE_FAST\<rparr>)"
      by (rule reachable.step)
    from this rev_dir show ?thesis
      unfolding arbiter_def using r by (simp add: reachable.step)
  next
    case n
    from assms normal_rate [OF n] have "reachable (InNormal, s\<lparr>clock_rate := RATE_NORMAL\<rparr>)"
      by (rule reachable.step)
    from this normal_dir show ?thesis
      unfolding arbiter_def using n by (simp add: reachable.step)
  qed
qed




text \<open>
  The restriction to the top of the loop matters: between the two stores of the default
  branch, entered after a fast-reverse iteration, the handler can see the normal rate
  with the reverse direction.
\<close>

lemma normal_reverse_inside_iteration:
  "\<exists>s. reachable (InNormal, s) \<and> clock_rate s = RATE_NORMAL \<and> clock_direction s = DIR_REV"
proof -
  let ?s = "arbiter 0x04 0x04 init_state"
  have r: "reachable (LoopTop, ?s)"
    by (intro arbiter_reachable reachable.start)
  have "sys_step (LoopTop, ?s) (InNormal, ?s\<lparr>clock_rate := RATE_NORMAL\<rparr>)"
    by (rule normal_rate [of "0x14" "0x14"])
      (simp_all add: BUTTON_FAST_FWD_def BUTTON_FAST_REV_def)
  with r have "reachable (InNormal, ?s\<lparr>clock_rate := RATE_NORMAL\<rparr>)"
    by (rule reachable.step)
  moreover have "clock_direction (?s\<lparr>clock_rate := RATE_NORMAL\<rparr>) = DIR_REV"
    by (simp add: arbiter_def BUTTON_FAST_FWD_def BUTTON_FAST_REV_def)
  ultimately show ?thesis
    by (intro exI [of _ "?s\<lparr>clock_rate := RATE_NORMAL\<rparr>"]) simp
qed

end
